theory Spec2Isabelle
  imports Main "HOL-Library.AList"
begin

section \<open>queuectl: job records, the persistent store, the queue facade and the worker\<close>

text \<open>
  A shallow embedding of \<^verbatim>\<open>job.py\<close>, \<^verbatim>\<open>config.py\<close>, \<^verbatim>\<open>storage.py\<close>,
  \<^verbatim>\<open>queue_manager.py\<close> and \<^verbatim>\<open>worker.py\<close>.

  What the Python does beyond returning values is written out:
  \<^item> the two files \<^verbatim>\<open>jobs.json\<close> and \<^verbatim>\<open>config.json\<close>, the wall clock, the
    UUID generator and the calls of \<^verbatim>\<open>time.sleep\<close> are fields of one record
    \<open>sys\<close> that every operation takes and returns;
  \<^item> a Python dictionary is an association list in insertion order (what \<^verbatim>\<open>dict\<close>
    and \<^verbatim>\<open>json\<close> keep), \<^verbatim>\<open>d[k] = v\<close> is \<open>AList.update\<close>;
  \<^item> an exception is a value of \<open>pyerror\<close>; an operation that can raise returns
    \<open>pyerror + 'a\<close>, and where the source mutates a job before raising, the mutated
    job is returned next to the exception;
  \<^item> \<^verbatim>\<open>print\<close>, the advisory file locks and the worker registry are left out: no
    operation modelled here reads them.
\<close>

subsection \<open>Python values, dictionaries and exceptions\<close>

datatype pyval = PyNone | PyStr string | PyInt int

type_synonym pydict = "(string \<times> pyval) list"

text \<open>Decimal printing of an integer, as \<^verbatim>\<open>str\<close> and an f-string do.\<close>

fun str_nat :: "nat \<Rightarrow> string" where
  "str_nat n =
     (if n < 10 then [''0123456789'' ! n]
      else str_nat (n div 10) @ [''0123456789'' ! (n mod 10)])"

declare str_nat.simps [simp del]

definition str_int :: "int \<Rightarrow> string" where
  "str_int i = (if i < 0 then CHR ''-'' # str_nat (nat (- i)) else str_nat (nat i))"

text \<open>
  The exceptions the modelled code can raise. \<open>Unmodelled\<close> is not a Python exception:
  it marks a value whose type is outside the type hints of \<^verbatim>\<open>Job.__init__\<close>, which
  the typed record below cannot hold.
\<close>

datatype pyerror =
    KeyError pyval
  | ValueError string
  | OverflowError string
  | TypeError string
  | Unmodelled string

text \<open>
  \<^verbatim>\<open>str(e)\<close>. For a \<^verbatim>\<open>KeyError\<close> it is the \<^verbatim>\<open>repr\<close> of the key, written here
  for keys without quotes, backslashes or control characters.
\<close>

fun py_repr :: "pyval \<Rightarrow> string" where
  "py_repr PyNone = ''None''"
| "py_repr (PyStr x) = [CHR 0x27] @ x @ [CHR 0x27]"
| "py_repr (PyInt n) = str_int n"

fun exc_str :: "pyerror \<Rightarrow> string" where
  "exc_str (KeyError k) = py_repr k"
| "exc_str (ValueError m) = m"
| "exc_str (OverflowError m) = m"
| "exc_str (TypeError m) = m"
| "exc_str (Unmodelled m) = m"

subsection \<open>job.py\<close>

datatype JobState = PENDING | PROCESSING | COMPLETED | FAILED | DEAD

fun JobState_value :: "JobState \<Rightarrow> string" where
  "JobState_value PENDING = ''pending''"
| "JobState_value PROCESSING = ''processing''"
| "JobState_value COMPLETED = ''completed''"
| "JobState_value FAILED = ''failed''"
| "JobState_value DEAD = ''dead''"

text \<open>Iterating over the enumeration (\<^verbatim>\<open>for state in JobState\<close>) follows the declaration order.\<close>

definition JobState_members :: "JobState list" where
  "JobState_members = [PENDING, PROCESSING, COMPLETED, FAILED, DEAD]"

text \<open>
  The fields of a \<^verbatim>\<open>Job\<close>, typed as the hints of \<^verbatim>\<open>__init__\<close> say. The field
  \<^verbatim>\<open>id\<close> is called \<open>job_id\<close>, after the constructor's parameter, and
  \<^verbatim>\<open>output\<close> is called \<open>job_output\<close> (both names are taken in Isabelle). \<open>state\<close> is a string,
  as in the source (\<^verbatim>\<open>state.value\<close> is what is stored). \<open>attempts\<close> is a count: the
  source writes it as 0, \<^verbatim>\<open>+= 1\<close> and \<^verbatim>\<open>= 0\<close> only, so it is a natural number here and
  \<^verbatim>\<open>base ** self.attempts\<close> is the integer power.
\<close>

record Job =
  job_id :: string
  command :: string
  state :: string
  attempts :: nat
  max_retries :: int
  created_at :: string
  updated_at :: string
  last_error :: "string option"
  job_output :: "string option"

type_synonym config = "(string \<times> int) list"

text \<open>
  The state the operations share. \<open>utcnow_isoformat\<close> and \<open>uuid4_str\<close> are what the
  successive calls of \<^verbatim>\<open>datetime.utcnow().isoformat()\<close> and \<^verbatim>\<open>str(uuid.uuid4())\<close>
  return, \<open>clock_reads\<close> and \<open>uuid_reads\<close> count the calls made so far. \<open>jobs_file\<close>
  is the dictionary in \<^verbatim>\<open>jobs.json\<close>, \<open>config_file\<close> the one in \<^verbatim>\<open>config.json\<close>
  (integer values, which is what \<^verbatim>\<open>config set\<close> stores for a number). \<open>sleep_calls\<close>
  lists the arguments of the calls of \<^verbatim>\<open>time.sleep\<close>, oldest first.
\<close>

record sys =
  utcnow_isoformat :: "nat \<Rightarrow> string"
  uuid4_str :: "nat \<Rightarrow> string"
  clock_reads :: nat
  uuid_reads :: nat
  jobs_file :: "(string \<times> pydict) list"
  config_file :: config
  sleep_calls :: "int list"

text \<open>\<^verbatim>\<open>datetime.utcnow().isoformat() + 'Z'\<close>: the next reading of the clock.\<close>

definition utcnow_Z :: "sys \<Rightarrow> string \<times> sys" where
  "utcnow_Z s =
     (utcnow_isoformat s (clock_reads s) @ ''Z'', s\<lparr>clock_reads := Suc (clock_reads s)\<rparr>)"

text \<open>\<^verbatim>\<open>str(uuid.uuid4())\<close>: the next generated identifier.\<close>

definition str_uuid4 :: "sys \<Rightarrow> string \<times> sys" where
  "str_uuid4 s = (uuid4_str s (uuid_reads s), s\<lparr>uuid_reads := Suc (uuid_reads s)\<rparr>)"

text \<open>
  \<^verbatim>\<open>v or gen()\<close> for an optional string: \<^verbatim>\<open>None\<close> and the empty string are falsy, and
  the right operand is evaluated only then.
\<close>

definition truthy :: "string option \<Rightarrow> bool" where
  "truthy v = (case v of None \<Rightarrow> False | Some x \<Rightarrow> x \<noteq> [])"

definition or_else :: "string option \<Rightarrow> (sys \<Rightarrow> string \<times> sys) \<Rightarrow> sys \<Rightarrow> string \<times> sys" where
  "or_else v gen s = (case v of None \<Rightarrow> gen s | Some x \<Rightarrow> if x \<noteq> [] then (x, s) else gen s)"

text \<open>
  \<^verbatim>\<open>Job.__init__\<close> with every parameter given; a caller that omits \<^verbatim>\<open>state\<close>,
  \<^verbatim>\<open>attempts\<close> or \<^verbatim>\<open>max_retries\<close> passes the defaults \<^verbatim>\<open>'pending'\<close>, 0 and 3.
\<close>

definition Job_init ::
  "string \<Rightarrow> string option \<Rightarrow> string \<Rightarrow> nat \<Rightarrow> int \<Rightarrow> string option \<Rightarrow> string option \<Rightarrow>
   string option \<Rightarrow> string option \<Rightarrow> sys \<Rightarrow> Job \<times> sys" where
  "Job_init cmd jid st att mr cat uat lerr outp s =
     (let (i, s1) = or_else jid str_uuid4 s;
          (c, s2) = or_else cat utcnow_Z s1;
          (u, s3) = or_else uat utcnow_Z s2
      in (\<lparr>job_id = i, command = cmd, state = st, attempts = att, max_retries = mr,
           created_at = c, updated_at = u, last_error = lerr, job_output = outp\<rparr>, s3))"

definition py_opt_str :: "string option \<Rightarrow> pyval" where
  "py_opt_str v = (case v of None \<Rightarrow> PyNone | Some x \<Rightarrow> PyStr x)"

definition to_dict :: "Job \<Rightarrow> pydict" where
  "to_dict j =
     [(''id'', PyStr (job_id j)),
      (''command'', PyStr (command j)),
      (''state'', PyStr (state j)),
      (''attempts'', PyInt (int (attempts j))),
      (''max_retries'', PyInt (max_retries j)),
      (''created_at'', PyStr (created_at j)),
      (''updated_at'', PyStr (updated_at j)),
      (''last_error'', py_opt_str (last_error j)),
      (''output'', py_opt_str (job_output j))]"

text \<open>\<^verbatim>\<open>data.get(key, default)\<close>; \<^verbatim>\<open>data.get(key)\<close> is \<open>dict_get data key PyNone\<close>.\<close>

definition dict_get :: "pydict \<Rightarrow> string \<Rightarrow> pyval \<Rightarrow> pyval" where
  "dict_get d k dflt = (case map_of d k of None \<Rightarrow> dflt | Some v \<Rightarrow> v)"

text \<open>
  Reading a dictionary value at the type the constructor's hint gives the parameter; a
  value of another type, and a negative \<^verbatim>\<open>attempts\<close>, are outside the typed record.
\<close>

fun as_str :: "pyval \<Rightarrow> string option" where
  "as_str (PyStr x) = Some x"
| "as_str _ = None"

fun as_opt_str :: "pyval \<Rightarrow> string option option" where
  "as_opt_str PyNone = Some None"
| "as_opt_str (PyStr x) = Some (Some x)"
| "as_opt_str _ = None"

fun as_count :: "pyval \<Rightarrow> nat option" where
  "as_count (PyInt n) = (if 0 \<le> n then Some (nat n) else None)"
| "as_count _ = None"

fun as_int :: "pyval \<Rightarrow> int option" where
  "as_int (PyInt n) = Some n"
| "as_int _ = None"

text \<open>
  \<^verbatim>\<open>Job.from_dict\<close>. The keyword arguments are evaluated in the order written:
  \<^verbatim>\<open>data['command']\<close> and \<^verbatim>\<open>data['id']\<close> raise \<^verbatim>\<open>KeyError\<close> on a missing key, the
  others fall back to a default.
\<close>

definition from_dict :: "pydict \<Rightarrow> sys \<Rightarrow> pyerror + (Job \<times> sys)" where
  "from_dict d s =
     (case map_of d ''command'' of
        None \<Rightarrow> Inl (KeyError (PyStr ''command''))
      | Some vc \<Rightarrow>
     (case map_of d ''id'' of
        None \<Rightarrow> Inl (KeyError (PyStr ''id''))
      | Some vi \<Rightarrow>
     (case as_str vc of None \<Rightarrow> Inl (Unmodelled ''command'') | Some cmd \<Rightarrow>
     (case as_opt_str vi of None \<Rightarrow> Inl (Unmodelled ''id'') | Some jid \<Rightarrow>
     (case as_str (dict_get d ''state'' (PyStr (JobState_value PENDING))) of
        None \<Rightarrow> Inl (Unmodelled ''state'') | Some st \<Rightarrow>
     (case as_count (dict_get d ''attempts'' (PyInt 0)) of
        None \<Rightarrow> Inl (Unmodelled ''attempts'') | Some att \<Rightarrow>
     (case as_int (dict_get d ''max_retries'' (PyInt 3)) of
        None \<Rightarrow> Inl (Unmodelled ''max_retries'') | Some mr \<Rightarrow>
     (case as_opt_str (dict_get d ''created_at'' PyNone) of
        None \<Rightarrow> Inl (Unmodelled ''created_at'') | Some cat \<Rightarrow>
     (case as_opt_str (dict_get d ''updated_at'' PyNone) of
        None \<Rightarrow> Inl (Unmodelled ''updated_at'') | Some uat \<Rightarrow>
     (case as_opt_str (dict_get d ''last_error'' PyNone) of
        None \<Rightarrow> Inl (Unmodelled ''last_error'') | Some lerr \<Rightarrow>
     (case as_opt_str (dict_get d ''output'' PyNone) of
        None \<Rightarrow> Inl (Unmodelled ''output'') | Some outp \<Rightarrow>
        Inr (Job_init cmd jid st att mr cat uat lerr outp s))))))))))))"

text \<open>
  \<^verbatim>\<open>Job.update_state\<close>: \<^verbatim>\<open>if error:\<close> and \<^verbatim>\<open>if output:\<close> test truthiness, so
  \<^verbatim>\<open>None\<close> and the empty string both leave the field as it is.
\<close>

definition update_state ::
  "JobState \<Rightarrow> string option \<Rightarrow> string option \<Rightarrow> Job \<Rightarrow> sys \<Rightarrow> Job \<times> sys" where
  "update_state st error outp j s =
     (let (now, s1) = utcnow_Z s;
          j1 = j\<lparr>state := JobState_value st, updated_at := now\<rparr>;
          j2 = (if truthy error then j1\<lparr>last_error := error\<rparr> else j1);
          j3 = (if truthy outp then j2\<lparr>job_output := outp\<rparr> else j2)
      in (j3, s1))"

definition increment_attempts :: "Job \<Rightarrow> sys \<Rightarrow> Job \<times> sys" where
  "increment_attempts j s =
     (let j1 = j\<lparr>attempts := attempts j + 1\<rparr>;
          (now, s1) = utcnow_Z s
      in (j1\<lparr>updated_at := now\<rparr>, s1))"

definition should_retry :: "Job \<Rightarrow> bool" where
  "should_retry j = (int (attempts j) < max_retries j)"

definition get_backoff_delay :: "int \<Rightarrow> Job \<Rightarrow> int" where
  "get_backoff_delay base j = base ^ attempts j"

subsection \<open>config.py\<close>

definition DEFAULT_CONFIG :: config where
  "DEFAULT_CONFIG = [(''max_retries'', 3), (''backoff_base'', 2), (''worker_poll_interval'', 1)]"

text \<open>\<^verbatim>\<open>Config.get\<close>: \<^verbatim>\<open>config.get(key, self.DEFAULT_CONFIG.get(key))\<close>; \<open>None\<close> is Python's \<^verbatim>\<open>None\<close>.\<close>

definition Config_get :: "string \<Rightarrow> sys \<Rightarrow> int option" where
  "Config_get key s =
     (case map_of (config_file s) key of
        Some v \<Rightarrow> Some v
      | None \<Rightarrow> map_of DEFAULT_CONFIG key)"

subsection \<open>storage.py\<close>

definition save_job :: "Job \<Rightarrow> sys \<Rightarrow> sys" where
  "save_job j s = s\<lparr>jobs_file := AList.update (job_id j) (to_dict j) (jobs_file s)\<rparr>"

text \<open>\<^verbatim>\<open>Storage.get_job\<close>: \<^verbatim>\<open>if job_data:\<close> is false for a missing key and for an empty dictionary.\<close>

definition get_job :: "string \<Rightarrow> sys \<Rightarrow> pyerror + (Job option \<times> sys)" where
  "get_job jid s =
     (case map_of (jobs_file s) jid of
        None \<Rightarrow> Inr (None, s)
      | Some job_data \<Rightarrow>
          if job_data = [] then Inr (None, s)
          else (case from_dict job_data s of
                  Inl e \<Rightarrow> Inl e
                | Inr (j, s1) \<Rightarrow> Inr (Some j, s1)))"

text \<open>
  The list comprehension of \<^verbatim>\<open>get_jobs_by_state\<close>, over \<^verbatim>\<open>jobs.values()\<close> in order:
  \<^verbatim>\<open>job_data['state']\<close> raises \<^verbatim>\<open>KeyError\<close> when the key is missing.
\<close>

fun jobs_with_state :: "string \<Rightarrow> pydict list \<Rightarrow> sys \<Rightarrow> pyerror + (Job list \<times> sys)" where
  "jobs_with_state v [] s = Inr ([], s)"
| "jobs_with_state v (job_data # rest) s =
     (case map_of job_data ''state'' of
        None \<Rightarrow> Inl (KeyError (PyStr ''state''))
      | Some sv \<Rightarrow>
          if sv = PyStr v then
            (case from_dict job_data s of
               Inl e \<Rightarrow> Inl e
             | Inr (j, s1) \<Rightarrow>
                 (case jobs_with_state v rest s1 of
                    Inl e \<Rightarrow> Inl e
                  | Inr (js, s2) \<Rightarrow> Inr (j # js, s2)))
          else jobs_with_state v rest s)"

definition get_jobs_by_state :: "JobState \<Rightarrow> sys \<Rightarrow> pyerror + (Job list \<times> sys)" where
  "get_jobs_by_state st s = jobs_with_state (JobState_value st) (map snd (jobs_file s)) s"



definition delete_job :: "string \<Rightarrow> sys \<Rightarrow> sys" where
  "delete_job jid s = s\<lparr>jobs_file := AList.delete jid (jobs_file s)\<rparr>"

text \<open>
  \<^verbatim>\<open>Storage.get_job_counts\<close>. \<^verbatim>\<open>counts[job_data['state']] += 1\<close> raises \<^verbatim>\<open>KeyError\<close>
  when the dictionary has no state or when its state is not a key of \<^verbatim>\<open>counts\<close>.
\<close>

fun count_states :: "pydict list \<Rightarrow> (string \<times> int) list \<Rightarrow> pyerror + (string \<times> int) list" where
  "count_states [] counts = Inr counts"
| "count_states (job_data # rest) counts =
     (case map_of job_data ''state'' of
        None \<Rightarrow> Inl (KeyError (PyStr ''state''))
      | Some (PyStr v) \<Rightarrow>
          (case map_of counts v of
             None \<Rightarrow> Inl (KeyError (PyStr v))
           | Some n \<Rightarrow> count_states rest (AList.update v (n + 1) counts))
      | Some other \<Rightarrow> Inl (KeyError other))"

definition get_job_counts :: "sys \<Rightarrow> pyerror + (string \<times> int) list" where
  "get_job_counts s =
     count_states (map snd (jobs_file s)) (map (\<lambda>st. (JobState_value st, 0)) JobState_members)"

subsection \<open>queue_manager.py\<close>

text \<open>
  \<^verbatim>\<open>QueueManager.enqueue\<close>. The job is built with the constructor's defaults for
  \<^verbatim>\<open>state\<close> and \<^verbatim>\<open>attempts\<close>. A \<^verbatim>\<open>max_retries\<close> of \<^verbatim>\<open>None\<close> after the lookup would
  be stored as it is by the source; the typed record cannot hold it.
\<close>

definition enqueue :: "string \<Rightarrow> string option \<Rightarrow> int option \<Rightarrow> sys \<Rightarrow> pyerror + (Job \<times> sys)" where
  "enqueue cmd jid mr s =
     (case (case mr of None \<Rightarrow> Config_get ''max_retries'' s | Some m \<Rightarrow> Some m) of
        None \<Rightarrow> Inl (Unmodelled ''max_retries'')
      | Some m \<Rightarrow>
          (let (j, s1) = Job_init cmd jid (JobState_value PENDING) 0 m None None None None s
           in Inr (j, save_job j s1)))"

text \<open>\<^verbatim>\<open>QueueManager.retry_job\<close>; a \<^verbatim>\<open>Job\<close> object is always truthy.\<close>

definition retry_job :: "string \<Rightarrow> sys \<Rightarrow> pyerror + (bool \<times> sys)" where
  "retry_job jid s =
     (case get_job jid s of
        Inl e \<Rightarrow> Inl e
      | Inr (None, s1) \<Rightarrow> Inr (False, s1)
      | Inr (Some j, s1) \<Rightarrow>
          if state j \<noteq> JobState_value DEAD then Inr (False, s1)
          else (let j1 = j\<lparr>attempts := 0\<rparr>;
                    (j2, s2) = update_state PENDING None None j1 s1
                in Inr (True, save_job j2 s2)))"

subsection \<open>worker.py\<close>

text \<open>
  The exception \<^verbatim>\<open>time.sleep(secs)\<close> raises for an integer argument, if any. The
  argument is converted to a signed 64-bit count of nanoseconds first, so an argument
  beyond 9223372036 seconds in either direction raises \<^verbatim>\<open>OverflowError\<close> (with the
  message of CPython up to 3.12); a negative argument that converts raises
  \<^verbatim>\<open>ValueError\<close>.
\<close>

definition sleep_exception :: "int \<Rightarrow> pyerror option" where
  "sleep_exception secs =
     (if secs < - 9223372036 \<or> 9223372036 < secs
        then Some (OverflowError ''timestamp too large to convert to C _PyTime_t'')
      else if secs < 0 then Some (ValueError ''sleep length must be non-negative'')
      else None)"

text \<open>\<^verbatim>\<open>time.sleep(secs)\<close>: every call is recorded, whether it returns or raises.\<close>

definition time_sleep :: "int \<Rightarrow> sys \<Rightarrow> pyerror option \<times> sys" where
  "time_sleep secs s = (sleep_exception secs, s\<lparr>sleep_calls := sleep_calls s @ [secs]\<rparr>)"

text \<open>
  What \<^verbatim>\<open>subprocess.run\<close> did: it returned a \<^verbatim>\<open>CompletedProcess\<close> (return code,
  standard output, standard error), raised \<^verbatim>\<open>TimeoutExpired\<close>, or raised another
  exception \<open>e\<close>, kept as \<^verbatim>\<open>str(e)\<close>.
\<close>

datatype run_result =
    CompletedProcess int string string
  | TimeoutExpired
  | RunException string

text \<open>
  The loop over the failed jobs in \<^verbatim>\<open>_get_next_job\<close>: the first job that should be
  retried is returned; its backoff is computed and not used.
\<close>

fun first_retryable :: "Job list \<Rightarrow> sys \<Rightarrow> pyerror + Job option" where
  "first_retryable [] s = Inr None"
| "first_retryable (j # js) s =
     (if should_retry j then
        (case Config_get ''backoff_base'' s of
           None \<Rightarrow> Inl (TypeError ''unsupported operand type(s) for ** or pow()'')
         | Some base \<Rightarrow> (let backoff = get_backoff_delay base j in Inr (Some j)))
      else first_retryable js s)"

definition get_next_job :: "sys \<Rightarrow> pyerror + (Job option \<times> sys)" where
  "get_next_job s =
     (case get_jobs_by_state PENDING s of
        Inl e \<Rightarrow> Inl e
      | Inr (pending_jobs, s1) \<Rightarrow>
          (case pending_jobs of
             [] \<Rightarrow>
               (case get_jobs_by_state FAILED s1 of
                  Inl e \<Rightarrow> Inl e
                | Inr (failed_jobs, s2) \<Rightarrow>
                    (case first_retryable failed_jobs s2 of
                       Inl e \<Rightarrow> Inl e
                     | Inr r \<Rightarrow> Inr (r, s2)))
           | j # _ \<Rightarrow>
               (let (j1, s2) = update_state PROCESSING None None j s1
                in Inr (Some j1, save_job j1 s2))))"

text \<open>
  \<^verbatim>\<open>Worker._handle_job_failure\<close>. The job is mutated in place, so the job as it is
  when the call ends is returned together with the exception, if one was raised.
\<close>

definition handle_job_failure :: "Job \<Rightarrow> string \<Rightarrow> sys \<Rightarrow> (Job \<times> pyerror option) \<times> sys" where
  "handle_job_failure j error s =
     (let (j1, s1) = increment_attempts j s in
      if should_retry j1 then
        (let (j2, s2) = update_state FAILED (Some error) None j1 s1 in
         case Config_get ''backoff_base'' s2 of
           None \<Rightarrow> ((j2, Some (TypeError ''unsupported operand type(s) for ** or pow()'')), s2)
         | Some base \<Rightarrow>
             (let backoff = get_backoff_delay base j2 in
              case time_sleep backoff s2 of
                (Some e, s3) \<Rightarrow> ((j2, Some e), s3)
              | (None, s3) \<Rightarrow>
                  (let (j3, s4) = update_state PENDING (Some error) None j2 s3
                   in ((j3, None), s4))))
      else
        (let (j2, s2) = update_state DEAD (Some error) None j1 s1
         in ((j2, None), s2)))"

text \<open>
  \<^verbatim>\<open>Worker._process_job\<close>, given what \<^verbatim>\<open>subprocess.run\<close> did. An exception raised by
  \<^verbatim>\<open>_handle_job_failure\<close> inside the \<^verbatim>\<open>try\<close> body is caught by
  \<^verbatim>\<open>except Exception\<close>, which handles the failure again; one raised inside an
  \<^verbatim>\<open>except\<close> clause propagates. The \<^verbatim>\<open>finally\<close> clause saves the job in every case.
\<close>

definition process_job :: "run_result \<Rightarrow> Job \<Rightarrow> sys \<Rightarrow> (Job \<times> pyerror option) \<times> sys" where
  "process_job r j s =
     (let ((j', raised), s') =
        (case r of
           CompletedProcess returncode out err \<Rightarrow>
             if returncode = 0 then
               (let (j1, s1) = update_state COMPLETED None (Some out) j s
                in ((j1, None), s1))
             else
               (let error = (if err \<noteq> [] then err
                             else ''Command exited with code '' @ str_int returncode);
                    ((j1, raised1), s1) = handle_job_failure j error s
                in case raised1 of
                     None \<Rightarrow> ((j1, None), s1)
                   | Some e \<Rightarrow> handle_job_failure j1 (exc_str e) s1)
         | TimeoutExpired \<Rightarrow> handle_job_failure j ''Job timed out'' s
         | RunException msg \<Rightarrow> handle_job_failure j msg s)
      in ((j', raised), save_job j' s'))"

text \<open>
  One pass of the loop of \<^verbatim>\<open>Worker.start\<close>: claim a job and process it, or sleep for
  the poll interval. The result is the exception that ends the loop, if any.
\<close>

definition worker_iteration :: "run_result \<Rightarrow> sys \<Rightarrow> pyerror option \<times> sys" where
  "worker_iteration r s =
     (case get_next_job s of
        Inl e \<Rightarrow> (Some e, s)
      | Inr (Some j, s1) \<Rightarrow>
          (let ((j', raised), s2) = process_job r j s1 in (raised, s2))
      | Inr (None, s1) \<Rightarrow>
          (case Config_get ''worker_poll_interval'' s1 of
             None \<Rightarrow> (Some (TypeError ''an integer is required''), s1)
           | Some secs \<Rightarrow> time_sleep secs s1))"

text \<open>
  \<^verbatim>\<open>Worker.start\<close>: the loop runs while \<^verbatim>\<open>self.running\<close> holds, one entry of the list
  for each pass made before a signal clears the flag, and stops at an exception.
\<close>

fun start :: "run_result list \<Rightarrow> sys \<Rightarrow> pyerror option \<times> sys" where
  "start [] s = (None, s)"
| "start (r # rs) s =
     (case worker_iteration r s of
        (Some e, s1) \<Rightarrow> (Some e, s1)
      | (None, s1) \<Rightarrow> start rs s1)"

subsection \<open>Well-formed jobs and stores\<close>

text \<open>
  Every \<^verbatim>\<open>Job\<close> object has a non-empty \<^verbatim>\<open>id\<close>, \<^verbatim>\<open>created_at\<close> and
  \<^verbatim>\<open>updated_at\<close>: the constructor replaces a falsy argument by a generated value, and
  the methods only ever write a fresh timestamp.
\<close>

definition job_wf :: "Job \<Rightarrow> bool" where
  "job_wf j = (job_id j \<noteq> [] \<and> created_at j \<noteq> [] \<and> updated_at j \<noteq> [])"

text \<open>The contents of \<^verbatim>\<open>jobs.json\<close> after \<^verbatim>\<open>save_job\<close> has written the jobs \<open>js\<close>.\<close>

definition store_of :: "Job list \<Rightarrow> (string \<times> pydict) list" where
  "store_of js = map (\<lambda>j. (job_id j, to_dict j)) js"

text \<open>
  What \<^verbatim>\<open>jobs[job.id] = job.to_dict()\<close> does to the list of stored jobs: the entry
  with the same identifier is replaced where it stands, a new one goes to the end.
\<close>

fun upsert :: "Job \<Rightarrow> Job list \<Rightarrow> Job list" where
  "upsert j [] = [j]"
| "upsert j (x # xs) = (if job_id x = job_id j then j # xs else x # upsert j xs)"

text \<open>
  How a job may differ after the worker has handled it: the identifier is the same, the
  attempt count is not lower, and the last error is the same or a new non-empty message.
\<close>

definition job_step :: "Job \<Rightarrow> Job \<Rightarrow> bool" where
  "job_step j j' =
     (job_id j' = job_id j \<and> attempts j \<le> attempts j' \<and>
      (last_error j' = last_error j \<or> (\<exists>e. e \<noteq> [] \<and> last_error j' = Some e)))"

text \<open>A field of the dictionary stored under an identifier in \<^verbatim>\<open>jobs.json\<close>.\<close>

definition stored_field :: "string \<Rightarrow> string \<Rightarrow> sys \<Rightarrow> pyval option" where
  "stored_field jid key s =
     (case map_of (jobs_file s) jid of None \<Rightarrow> None | Some job_data \<Rightarrow> map_of job_data key)"

text \<open>A stored dictionary whose state is one of the five values of \<^verbatim>\<open>JobState\<close>.\<close>

definition has_valid_state :: "pydict \<Rightarrow> bool" where
  "has_valid_state job_data =
     (case map_of job_data ''state'' of
        Some (PyStr v) \<Rightarrow> v \<in> set (map JobState_value JobState_members)
      | _ \<Rightarrow> False)"

subsection \<open>Concrete inputs\<close>

text \<open>A clock, an identifier generator, an empty store and the default configuration.\<close>

definition sys0 :: sys where
  "sys0 =
     \<lparr>utcnow_isoformat = (\<lambda>n. ''2025-01-01T00:00:0'' @ str_nat n),
      uuid4_str = (\<lambda>n. ''uuid-'' @ str_nat n),
      clock_reads = 0, uuid_reads = 0,
      jobs_file = [], config_file = [], sleep_calls = []\<rparr>"

text \<open>A job as \<^verbatim>\<open>enqueue\<close> creates it, with the identifier and the retry limit given.\<close>

definition new_job :: "string \<Rightarrow> int \<Rightarrow> Job" where
  "new_job jid mr =
     \<lparr>job_id = jid, command = ''exit 1'', state = ''pending'', attempts = 0, max_retries = mr,
      created_at = ''2025-01-01T00:00:00Z'', updated_at = ''2025-01-01T00:00:00Z'',
      last_error = None, job_output = None\<rparr>"

text \<open>A store holding a pending job and a dead one.\<close>

definition dead_job :: "string \<Rightarrow> Job" where
  "dead_job jid =
     (new_job jid 3)\<lparr>state := ''dead'', attempts := 3, last_error := Some ''boom''\<rparr>"

definition sys1 :: sys where
  "sys1 = sys0\<lparr>jobs_file := store_of [new_job ''job1'' 3, dead_job ''job2'']\<rparr>"

text \<open>
  A store whose only job is \<open>failed\<close> after one attempt out of three, and a configuration
  with a negative backoff base.
\<close>

definition failed_job :: "string \<Rightarrow> Job" where
  "failed_job jid =
     (new_job jid 3)\<lparr>state := ''failed'', attempts := 1, last_error := Some ''Job timed out''\<rparr>"

definition sys2 :: sys where
  "sys2 = sys0\<lparr>jobs_file := store_of [failed_job ''job1'']\<rparr>"

definition sys_neg :: sys where
  "sys_neg = sys0\<lparr>config_file := [(''backoff_base'', - 2)]\<rparr>"

section \<open>Properties\<close>

subsection \<open>Job records\<close>

lemma from_dict_to_dict: "job_wf j \<Longrightarrow> from_dict (to_dict j) s = Inr (j, s)"
  by (cases "last_error j"; cases "job_output j")
     (simp_all add: job_wf_def from_dict_def to_dict_def dict_get_def Job_init_def or_else_def
        py_opt_str_def)

lemma update_state_fields:
  "state (fst (update_state st e outp j s)) = JobState_value st"
  "attempts (fst (update_state st e outp j s)) = attempts j"
  "max_retries (fst (update_state st e outp j s)) = max_retries j"
  "job_id (fst (update_state st e outp j s)) = job_id j"
  "command (fst (update_state st e outp j s)) = command j"
  "created_at (fst (update_state st e outp j s)) = created_at j"
  "last_error (fst (update_state st e outp j s)) = (if truthy e then e else last_error j)"
  "job_output (fst (update_state st e outp j s)) = (if truthy outp then outp else job_output j)"
  "updated_at (fst (update_state st e outp j s)) = utcnow_isoformat s (clock_reads s) @ ''Z''"
  by (simp_all add: update_state_def utcnow_Z_def Let_def)

lemma update_state_sys:
  "snd (update_state st e outp j s) = s\<lparr>clock_reads := Suc (clock_reads s)\<rparr>"
  by (simp add: update_state_def utcnow_Z_def Let_def)

lemma increment_attempts_fields:
  "attempts (fst (increment_attempts j s)) = attempts j + 1"
  "state (fst (increment_attempts j s)) = state j"
  "max_retries (fst (increment_attempts j s)) = max_retries j"
  "job_id (fst (increment_attempts j s)) = job_id j"
  "command (fst (increment_attempts j s)) = command j"
  "created_at (fst (increment_attempts j s)) = created_at j"
  "last_error (fst (increment_attempts j s)) = last_error j"
  "job_output (fst (increment_attempts j s)) = job_output j"
  "updated_at (fst (increment_attempts j s)) = utcnow_isoformat s (clock_reads s) @ ''Z''"
  by (simp_all add: increment_attempts_def utcnow_Z_def Let_def)

lemma increment_attempts_sys:
  "snd (increment_attempts j s) = s\<lparr>clock_reads := Suc (clock_reads s)\<rparr>"
  by (simp add: increment_attempts_def utcnow_Z_def Let_def)

text \<open>Well-formedness is established by the constructor and kept by the methods.\<close>

lemma job_wf_Job_init:
  "(\<forall>n. uuid4_str s n \<noteq> []) \<Longrightarrow>
   job_wf (fst (Job_init cmd jid st att mr cat uat lerr outp s))"
  by (auto simp add: job_wf_def Job_init_def or_else_def str_uuid4_def utcnow_Z_def split_def
      Let_def split: option.splits)

lemma job_wf_update_state: "job_wf j \<Longrightarrow> job_wf (fst (update_state st e outp j s))"
  by (simp add: job_wf_def update_state_fields)

lemma job_wf_increment_attempts: "job_wf j \<Longrightarrow> job_wf (fst (increment_attempts j s))"
  by (simp add: job_wf_def increment_attempts_fields)

lemma job_wf_new_job: "job_wf (new_job ''job1'' mr)"
  by (simp add: job_wf_def new_job_def)

text \<open>The defaults make the lookups of the three known keys succeed.\<close>

lemma Config_get_clock [simp]: "Config_get k (s\<lparr>clock_reads := n\<rparr>) = Config_get k s"
  by (simp add: Config_get_def)

lemma Config_get_backoff_base: "\<exists>b. Config_get ''backoff_base'' s = Some b"
  by (simp add: Config_get_def DEFAULT_CONFIG_def split: option.split)

lemma Config_get_max_retries: "\<exists>m. Config_get ''max_retries'' s = Some m"
  by (simp add: Config_get_def DEFAULT_CONFIG_def split: option.split)


text \<open>
  C8. Serialising a job with \<open>to_dict\<close> and rebuilding it with \<open>from_dict\<close> gives back
  the same record, field for field, and reads neither the clock nor the identifier
  generator. The job is any \<^verbatim>\<open>Job\<close> object: its identifier and its two timestamps are
  non-empty (\<open>job_wf\<close>, which \<open>job_wf_Job_init\<close>, \<open>job_wf_update_state\<close> and
  \<open>job_wf_increment_attempts\<close> show of every job the code builds).
\<close>

theorem to_dict_from_dict_roundtrip:
  "job_wf j \<Longrightarrow> from_dict (to_dict j) s = Inr (j, s)"
  by (rule from_dict_to_dict)

theorem to_dict_from_dict_roundtrip_witness:
  "job_wf (new_job ''job1'' 3) \<and>
   from_dict (to_dict (new_job ''job1'' 3)) sys0 = Inr (new_job ''job1'' 3, sys0)"
  using to_dict_from_dict_roundtrip [of "new_job ''job1'' 3" sys0] job_wf_new_job by simp

subsection \<open>The failure handler\<close>

text \<open>The two branches of \<open>handle_job_failure\<close>, written out.\<close>

lemma handle_job_failure_dead:
  assumes "max_retries j \<le> int (attempts j) + 1"
  shows "handle_job_failure j err s =
     ((fst (update_state DEAD (Some err) None (fst (increment_attempts j s))
              (snd (increment_attempts j s))), None),
      snd (update_state DEAD (Some err) None (fst (increment_attempts j s))
              (snd (increment_attempts j s))))"
  using assms
  by (simp add: handle_job_failure_def should_retry_def split_def Let_def
      increment_attempts_fields)

lemma handle_job_failure_retry:
  assumes "int (attempts j) + 1 < max_retries j"
      and "Config_get ''backoff_base'' s = Some base"
  shows "handle_job_failure j err s =
     (let j1 = fst (increment_attempts j s); s1 = snd (increment_attempts j s);
          j2 = fst (update_state FAILED (Some err) None j1 s1);
          s2 = snd (update_state FAILED (Some err) None j1 s1);
          s3 = s2\<lparr>sleep_calls := sleep_calls s2 @ [base ^ (attempts j + 1)]\<rparr>
      in case sleep_exception (base ^ (attempts j + 1)) of
           Some e \<Rightarrow> ((j2, Some e), s3)
         | None \<Rightarrow> ((fst (update_state PENDING (Some err) None j2 s3), None),
                    snd (update_state PENDING (Some err) None j2 s3)))"
  using assms
  by (simp add: handle_job_failure_def should_retry_def split_def Let_def
      increment_attempts_fields update_state_fields update_state_sys increment_attempts_sys
      time_sleep_def get_backoff_delay_def split: option.split)

text \<open>On the retry branch the job ends \<open>pending\<close> exactly when the sleep call returns.\<close>

lemma sleep_exception_examples:
  "sleep_exception 8 = None"
  "sleep_exception (- 2) = Some (ValueError ''sleep length must be non-negative'')"
  "sleep_exception (10 ^ 10) =
     Some (OverflowError ''timestamp too large to convert to C _PyTime_t'')"
  by (simp_all add: sleep_exception_def)







subsection \<open>Saving and completing\<close>

lemma jobs_file_save_job:
  "map_of (jobs_file (save_job j s)) = (map_of (jobs_file s))(job_id j \<mapsto> to_dict j)"
  by (simp add: save_job_def update_conv')

lemma process_job_success:
  "process_job (CompletedProcess 0 out err) j s =
     ((fst (update_state COMPLETED None (Some out) j s), None),
      save_job (fst (update_state COMPLETED None (Some out) j s))
        (snd (update_state COMPLETED None (Some out) j s)))"
  by (simp add: process_job_def split_def Let_def)



text \<open>
  C10. \<open>update_state\<close> with an absent or empty error leaves \<open>last_error\<close> as it was, and
  with an absent or empty output leaves \<open>job_output\<close> as it was. So a command that
  succeeds with empty standard output ends \<open>completed\<close> with the output it had before
  (\<open>None\<close> for a job that never had one), and that record is the one saved.
\<close>

theorem falsy_error_and_output_keep_fields:
  "last_error (fst (update_state st None outp j s)) = last_error j \<and>
   last_error (fst (update_state st (Some []) outp j s)) = last_error j \<and>
   job_output (fst (update_state st e None j s)) = job_output j \<and>
   job_output (fst (update_state st e (Some []) j s)) = job_output j \<and>
   (let ((j', raised), s') = process_job (CompletedProcess 0 [] err) j s
    in state j' = ''completed'' \<and> raised = None \<and> job_output j' = job_output j \<and>
       last_error j' = last_error j \<and>
       map_of (jobs_file s') (job_id j) = Some (to_dict j'))"
  by (simp add: process_job_success update_state_fields truthy_def jobs_file_save_job)

theorem falsy_error_and_output_keep_fields_witness:
  "job_output (fst (fst (process_job (CompletedProcess 0 [] []) (new_job ''job1'' 3) sys0))) = None \<and>
   state (fst (fst (process_job (CompletedProcess 0 [] []) (new_job ''job1'' 3) sys0))) = ''completed''"
  using falsy_error_and_output_keep_fields [of PENDING None "new_job ''job1'' 3" sys0 None "[]"]
  by (simp add: split_def Let_def new_job_def)

subsection \<open>The store\<close>

lemma sum_list_update_count:
  "map_of c k = Some n \<Longrightarrow>
   sum_list (map snd (AList.update k (n + 1) c)) = sum_list (map snd c) + (1::int)"
  by (induction c) (auto split: if_splits)

lemma keys_update_count:
  "map_of c k = Some n \<Longrightarrow> map fst (AList.update k v c) = map fst c"
  by (induction c) (auto split: if_splits)

lemma count_states_total:
  assumes "list_all has_valid_state ds"
      and "map fst c = map JobState_value JobState_members"
  shows "\<exists>c'. count_states ds c = Inr c' \<and> map fst c' = map fst c \<and>
              sum_list (map snd c') = sum_list (map snd c) + int (length ds)"
  using assms
proof (induction ds arbitrary: c)
  case Nil
  then show ?case by simp
next
  case (Cons d ds)
  from Cons.prems(1) have hd: "has_valid_state d" and rest: "list_all has_valid_state ds"
    by simp_all
  from hd obtain v where v: "map_of d ''state'' = Some (PyStr v)"
    and mem: "v \<in> set (map JobState_value JobState_members)"
    by (auto simp add: has_valid_state_def split: option.splits pyval.splits)
  from mem Cons.prems(2) have "v \<in> fst ` set c"
    by (metis set_map)
  then obtain n where n: "map_of c v = Some n"
    by (metis domD dom_map_of_conv_image_fst)
  let ?c = "AList.update v (n + 1) c"
  have keys: "map fst ?c = map fst c" using n by (rule keys_update_count)
  with Cons.prems(2) have "map fst ?c = map JobState_value JobState_members" by simp
  from Cons.IH [OF rest this] obtain c' where
    c': "count_states ds ?c = Inr c'" "map fst c' = map fst ?c"
        "sum_list (map snd c') = sum_list (map snd ?c) + int (length ds)"
    by blast
  show ?case
    using v n c' keys sum_list_update_count [OF n] by simp
qed

text \<open>
  C9. When every stored dictionary carries one of the five states, \<open>get_job_counts\<close>
  returns (it raises no \<^verbatim>\<open>KeyError\<close>) a dictionary whose keys are the five state
  names, in the order of the enumeration, and whose values add up to the number of
  stored jobs.
\<close>

theorem get_job_counts_sum:
  assumes "list_all has_valid_state (map snd (jobs_file s))"
  shows "\<exists>counts. get_job_counts s = Inr counts \<and>
           map fst counts = [''pending'', ''processing'', ''completed'', ''failed'', ''dead''] \<and>
           sum_list (map snd counts) = int (length (jobs_file s))"
proof -
  let ?c0 = "map (\<lambda>st. (JobState_value st, 0::int)) JobState_members"
  have k0: "map fst ?c0 = map JobState_value JobState_members"
    by (simp add: JobState_members_def)
  from count_states_total [OF assms k0] obtain c' where
    "count_states (map snd (jobs_file s)) ?c0 = Inr c'" "map fst c' = map fst ?c0"
    "sum_list (map snd c') = sum_list (map snd ?c0) + int (length (map snd (jobs_file s)))"
    by blast
  then show ?thesis
    by (simp add: get_job_counts_def JobState_members_def)
qed


lemma sys1_store: "jobs_file sys1 = store_of [new_job ''job1'' 3, dead_job ''job2'']"
  by (simp add: sys1_def)

lemma sys1_wf: "list_all job_wf [new_job ''job1'' 3, dead_job ''job2'']"
  by (simp add: job_wf_def new_job_def dead_job_def)

lemma sys1_lookup:
  "map_of (jobs_file sys1) ''job1'' = Some (to_dict (new_job ''job1'' 3))"
  "map_of (jobs_file sys1) ''job2'' = Some (to_dict (dead_job ''job2''))"
  "map_of (jobs_file sys1) ''nope'' = None"
  by (simp_all add: sys1_store store_of_def new_job_def dead_job_def)

lemma sys1_states:
  "state (new_job ''job1'' 3) \<noteq> ''dead''" "state (dead_job ''job2'') = ''dead''"
  by (simp_all add: new_job_def dead_job_def)

lemma sys1_valid: "list_all has_valid_state (map snd (jobs_file sys1))"
  by (simp add: sys1_store store_of_def has_valid_state_def to_dict_def new_job_def dead_job_def
      JobState_members_def)

theorem get_job_counts_sum_witness:
  "list_all has_valid_state (map snd (jobs_file sys1)) \<and>
   (\<exists>counts. get_job_counts sys1 = Inr counts \<and>
      map fst counts = [''pending'', ''processing'', ''completed'', ''failed'', ''dead''] \<and>
      sum_list (map snd counts) = 2)"
proof -
  have n: "int (length (jobs_file sys1)) = 2"
    by (simp add: sys1_store store_of_def)
  from get_job_counts_sum [OF sys1_valid] show ?thesis
    unfolding n using sys1_valid by (intro conjI)
qed

lemma to_dict_nonempty: "to_dict j \<noteq> []"
  by (simp add: to_dict_def)

lemma py_opt_str_inj: "py_opt_str a = py_opt_str b \<Longrightarrow> a = b"
  by (cases a; cases b) (simp_all add: py_opt_str_def)

lemma to_dict_inj: "to_dict j = to_dict j' \<Longrightarrow> j = j'"
  for j j' :: Job
  by (cases j; cases j') (auto simp add: to_dict_def dest: py_opt_str_inj)

lemma map_of_store_of:
  "map_of (store_of js) k = map_option to_dict (find (\<lambda>j. job_id j = k) js)"
  by (induction js) (auto simp add: store_of_def)

lemma store_of_upsert:
  "AList.update (job_id j) (to_dict j) (store_of js) = store_of (upsert j js)"
  by (induction js) (auto simp add: store_of_def)

lemma find_upsert:
  "find (\<lambda>x. job_id x = k) (upsert j js) =
     (if k = job_id j then Some j else find (\<lambda>x. job_id x = k) js)"
  by (induction js) auto

lemma list_all_upsert: "job_wf j \<Longrightarrow> list_all job_wf js \<Longrightarrow> list_all job_wf (upsert j js)"
  by (induction js) auto

lemma find_wf: "list_all job_wf js \<Longrightarrow> find P js = Some j \<Longrightarrow> job_wf j"
  by (induction js) (auto split: if_splits)

lemma save_job_store:
  "jobs_file s = store_of js \<Longrightarrow> jobs_file (save_job j s) = store_of (upsert j js)"
  by (simp add: save_job_def store_of_upsert)

lemma get_job_store:
  assumes "jobs_file s = store_of js" and "list_all job_wf js"
  shows "get_job jid s = Inr (find (\<lambda>j. job_id j = jid) js, s)"
proof (cases "find (\<lambda>j. job_id j = jid) js")
  case None
  then show ?thesis using assms by (simp add: get_job_def map_of_store_of)
next
  case (Some j)
  with assms(2) have "job_wf j" by (rule find_wf)
  then show ?thesis using assms(1) Some
    by (simp add: get_job_def map_of_store_of to_dict_nonempty from_dict_to_dict)
qed

lemma retry_job_store:
  assumes "jobs_file s = store_of js" and "list_all job_wf js"
  shows "retry_job jid s =
     (case find (\<lambda>j. job_id j = jid) js of
        None \<Rightarrow> Inr (False, s)
      | Some j \<Rightarrow>
          if state j \<noteq> ''dead'' then Inr (False, s)
          else Inr (True, save_job (fst (update_state PENDING None None (j\<lparr>attempts := 0\<rparr>) s))
                      (s\<lparr>clock_reads := Suc (clock_reads s)\<rparr>)))"
  by (simp add: retry_job_def get_job_store [OF assms] split_def Let_def update_state_sys
      split: option.split)

text \<open>
  C4. \<open>enqueue\<close> returns a job (it does not raise) whose state is \<open>pending\<close> and whose
  \<open>attempts\<close> is 0, with the command given. A non-empty identifier is kept; without one
  the next generated identifier is used. A \<open>max_retries\<close> that is given is kept; without
  one the value of \<open>Config_get\<close> for \<^verbatim>\<open>max_retries\<close> is used. The returned record is what
  the store holds under its identifier, and no other entry of the store changes.
\<close>

theorem enqueue_creates_pending:
  "\<exists>j s'. enqueue cmd jid mr s = Inr (j, s') \<and>
      state j = ''pending'' \<and> attempts j = 0 \<and> command j = cmd \<and>
      last_error j = None \<and> job_output j = None \<and>
      (\<forall>i. jid = Some i \<and> i \<noteq> [] \<longrightarrow> job_id j = i \<and> uuid_reads s' = uuid_reads s) \<and>
      (\<not> truthy jid \<longrightarrow> job_id j = uuid4_str s (uuid_reads s) \<and> uuid_reads s' = Suc (uuid_reads s)) \<and>
      (\<forall>m. mr = Some m \<longrightarrow> max_retries j = m) \<and>
      (mr = None \<longrightarrow> Config_get ''max_retries'' s = Some (max_retries j)) \<and>
      map_of (jobs_file s') (job_id j) = Some (to_dict j) \<and>
      (\<forall>k. k \<noteq> job_id j \<longrightarrow> map_of (jobs_file s') k = map_of (jobs_file s) k)"
proof -
  obtain d where d: "Config_get ''max_retries'' s = Some d"
    using Config_get_max_retries by blast
  define m where "m = (case mr of None \<Rightarrow> d | Some x \<Rightarrow> x)"
  have sel: "(case mr of None \<Rightarrow> Config_get ''max_retries'' s | Some x \<Rightarrow> Some x) = Some m"
    by (simp add: m_def d split: option.split)
  let ?r = "Job_init cmd jid ''pending'' 0 m None None None None s"
  have e: "enqueue cmd jid mr s = Inr (fst ?r, save_job (fst ?r) (snd ?r))"
    by (simp add: enqueue_def sel split_def Let_def)
  have f: "state (fst ?r) = ''pending''" "attempts (fst ?r) = 0" "command (fst ?r) = cmd"
    "last_error (fst ?r) = None" "job_output (fst ?r) = None" "max_retries (fst ?r) = m"
    by (simp_all add: Job_init_def split_def Let_def)
  have i1: "\<forall>i. jid = Some i \<and> i \<noteq> [] \<longrightarrow> job_id (fst ?r) = i \<and> uuid_reads (snd ?r) = uuid_reads s"
    by (simp add: Job_init_def split_def Let_def or_else_def utcnow_Z_def)
  have i2: "\<not> truthy jid \<longrightarrow>
      job_id (fst ?r) = uuid4_str s (uuid_reads s) \<and> uuid_reads (snd ?r) = Suc (uuid_reads s)"
    by (auto simp add: Job_init_def split_def Let_def or_else_def utcnow_Z_def str_uuid4_def
        truthy_def split: option.splits)
  have st: "jobs_file (snd ?r) = jobs_file s"
    by (auto simp add: Job_init_def split_def Let_def or_else_def utcnow_Z_def str_uuid4_def
        split: option.splits)
  have u: "uuid_reads (save_job (fst ?r) (snd ?r)) = uuid_reads (snd ?r)"
    by (simp add: save_job_def)
  show ?thesis
    unfolding e
    using f i1 i2 st u
    by (auto simp add: jobs_file_save_job m_def d)
qed


lemma sys0_facts:
  "Config_get ''max_retries'' sys0 = Some 3"
  "uuid4_str sys0 (uuid_reads sys0) = ''uuid-0''"
  by (simp_all add: Config_get_def DEFAULT_CONFIG_def sys0_def str_nat.simps)

theorem enqueue_creates_pending_witness:
  "(\<exists>j s'. enqueue ''echo hi'' None None sys0 = Inr (j, s') \<and> state j = ''pending'' \<and>
      attempts j = 0 \<and> job_id j = ''uuid-0'' \<and> max_retries j = 3 \<and>
      map_of (jobs_file s') ''uuid-0'' = Some (to_dict j)) \<and>
   (\<exists>j s'. enqueue ''echo hi'' (Some ''job7'') (Some 5) sys0 = Inr (j, s') \<and>
      job_id j = ''job7'' \<and> max_retries j = 5)"
proof -
  from enqueue_creates_pending [of "''echo hi''" None None sys0] obtain j s' where
    e: "enqueue ''echo hi'' None None sys0 = Inr (j, s')"
    and f: "state j = ''pending''" "attempts j = 0"
    and i: "\<not> truthy None \<longrightarrow>
        job_id j = uuid4_str sys0 (uuid_reads sys0) \<and> uuid_reads s' = Suc (uuid_reads sys0)"
    and m: "(None :: int option) = None \<longrightarrow> Config_get ''max_retries'' sys0 = Some (max_retries j)"
    and st: "map_of (jobs_file s') (job_id j) = Some (to_dict j)"
    by (elim exE conjE) (rule that, assumption+)
  from i have id: "job_id j = ''uuid-0''" by (simp add: truthy_def sys0_facts)
  from m have mr: "max_retries j = 3" by (simp add: sys0_facts)
  from e f id mr st
  have a: "\<exists>j s'. enqueue ''echo hi'' None None sys0 = Inr (j, s') \<and> state j = ''pending'' \<and>
      attempts j = 0 \<and> job_id j = ''uuid-0'' \<and> max_retries j = 3 \<and>
      map_of (jobs_file s') ''uuid-0'' = Some (to_dict j)"
    by (intro exI [of _ j] exI [of _ s']) simp
  from enqueue_creates_pending [of "''echo hi''" "Some ''job7''" "Some 5" sys0] obtain j2 s2 where
    e2: "enqueue ''echo hi'' (Some ''job7'') (Some 5) sys0 = Inr (j2, s2)"
    and i2: "\<forall>i. Some ''job7'' = Some i \<and> i \<noteq> [] \<longrightarrow> job_id j2 = i \<and> uuid_reads s2 = uuid_reads sys0"
    and m2: "\<forall>m. Some (5::int) = Some m \<longrightarrow> max_retries j2 = m"
    by (elim exE conjE) (rule that, assumption+)
  from i2 have id2: "job_id j2 = ''job7''" by simp
  from m2 have mr2: "max_retries j2 = 5" by simp
  from e2 id2 mr2
  have b: "\<exists>j s'. enqueue ''echo hi'' (Some ''job7'') (Some 5) sys0 = Inr (j, s') \<and>
      job_id j = ''job7'' \<and> max_retries j = 5"
    by (intro exI [of _ j2] exI [of _ s2]) simp
  from a b show ?thesis by (intro conjI)
qed


lemma find_holds: "find P xs = Some x \<Longrightarrow> P x"
  by (induction xs) (auto split: if_splits)

lemma update_state_plain:
  "fst (update_state st None None j s) =
     j\<lparr>state := JobState_value st, updated_at := utcnow_isoformat s (clock_reads s) @ ''Z''\<rparr>"
  by (simp add: update_state_def utcnow_Z_def truthy_def Let_def)

text \<open>
  C3. On a store written by \<open>save_job\<close>, \<open>retry_job\<close> returns (it does not raise), and it
  returns true exactly when the store holds a job under the identifier whose state is
  \<open>dead\<close>. When it returns false nothing changes. When it returns true the stored job has
  \<open>attempts\<close> 0, state \<open>pending\<close> and a new \<open>updated_at\<close>, every other field and every
  other entry is as before, and a second call returns false.
\<close>

theorem retry_job_dead_only:
  assumes store: "jobs_file s = store_of js" and wf: "list_all job_wf js"
  shows "\<exists>b s'. retry_job jid s = Inr (b, s') \<and>
      (b \<longleftrightarrow> (\<exists>j. map_of (jobs_file s) jid = Some (to_dict j) \<and> state j = ''dead'')) \<and>
      (\<not> b \<longrightarrow> s' = s) \<and>
      (b \<longrightarrow> (\<exists>j. map_of (jobs_file s) jid = Some (to_dict j) \<and>
                 map_of (jobs_file s') jid =
                   Some (to_dict (j\<lparr>attempts := 0, state := ''pending'',
                      updated_at := utcnow_isoformat s (clock_reads s) @ ''Z''\<rparr>)) \<and>
                 (\<forall>k. k \<noteq> jid \<longrightarrow> map_of (jobs_file s') k = map_of (jobs_file s) k) \<and>
                 retry_job jid s' = Inr (False, s')))"
proof (cases "find (\<lambda>j. job_id j = jid) js")
  case None
  then have "retry_job jid s = Inr (False, s)" "map_of (jobs_file s) jid = None"
    using retry_job_store [OF store wf, of jid] by (simp_all add: store map_of_store_of)
  then show ?thesis by auto
next
  case (Some j)
  then have stored: "map_of (jobs_file s) jid = Some (to_dict j)"
    by (simp add: store map_of_store_of)
  have jid: "job_id j = jid" using find_holds [OF Some] .
  have jwf: "job_wf j" using wf Some by (rule find_wf)
  show ?thesis
  proof (cases "state j = ''dead''")
    case False
    then show ?thesis
      using retry_job_store [OF store wf, of jid] Some stored
      by (auto dest: to_dict_inj)
  next
    case True
    let ?j' = "j\<lparr>attempts := 0, state := ''pending'',
                 updated_at := utcnow_isoformat s (clock_reads s) @ ''Z''\<rparr>"
    let ?s' = "save_job ?j' (s\<lparr>clock_reads := Suc (clock_reads s)\<rparr>)"
    have first: "retry_job jid s = Inr (True, ?s')"
      using retry_job_store [OF store wf, of jid] Some True
      by (simp add: update_state_plain)
    have store': "jobs_file ?s' = store_of (upsert ?j' js)"
      by (rule save_job_store) (simp add: store)
    have wf': "list_all job_wf (upsert ?j' js)"
      using jwf wf by (intro list_all_upsert) (simp_all add: job_wf_def)
    have found: "find (\<lambda>x. job_id x = jid) (upsert ?j' js) = Some ?j'"
      by (simp add: find_upsert jid)
    have second: "retry_job jid ?s' = Inr (False, ?s')"
      using retry_job_store [OF store' wf', of jid] found by simp
    have new: "map_of (jobs_file ?s') jid = Some (to_dict ?j')"
      by (simp add: jobs_file_save_job jid)
    have others: "\<forall>k. k \<noteq> jid \<longrightarrow> map_of (jobs_file ?s') k = map_of (jobs_file s) k"
      by (simp add: jobs_file_save_job jid)
    show ?thesis
      using first second new others stored True by blast
  qed
qed



theorem retry_job_dead_only_witness:
  "retry_job ''job1'' sys1 = Inr (False, sys1) \<and>
   retry_job ''nope'' sys1 = Inr (False, sys1) \<and>
   (\<exists>s'. retry_job ''job2'' sys1 = Inr (True, s') \<and> retry_job ''job2'' s' = Inr (False, s'))"
proof -
  from retry_job_dead_only [OF sys1_store sys1_wf, of "''job2''"] obtain b s' where
    r: "retry_job ''job2'' sys1 = Inr (b, s')"
    and b: "b \<longleftrightarrow> (\<exists>j. map_of (jobs_file sys1) ''job2'' = Some (to_dict j) \<and> state j = ''dead'')"
    and again: "b \<longrightarrow> (\<exists>j. map_of (jobs_file sys1) ''job2'' = Some (to_dict j) \<and>
                 map_of (jobs_file s') ''job2'' =
                   Some (to_dict (j\<lparr>attempts := 0, state := ''pending'',
                      updated_at := utcnow_isoformat sys1 (clock_reads sys1) @ ''Z''\<rparr>)) \<and>
                 (\<forall>k. k \<noteq> ''job2'' \<longrightarrow> map_of (jobs_file s') k = map_of (jobs_file sys1) k) \<and>
                 retry_job ''job2'' s' = Inr (False, s'))"
    by (elim exE conjE) (rule that, assumption+)
  have "b" unfolding b using sys1_lookup(2) sys1_states(2) by (intro exI conjI)
  from again [rule_format, OF \<open>b\<close>] have "retry_job ''job2'' s' = Inr (False, s')"
    by (elim exE conjE)
  with r \<open>b\<close> have a: "\<exists>s'. retry_job ''job2'' sys1 = Inr (True, s') \<and> retry_job ''job2'' s' = Inr (False, s')"
    by (intro exI [of _ s']) simp
  from retry_job_dead_only [OF sys1_store sys1_wf, of "''job1''"] obtain b1 s1 where
    r1: "retry_job ''job1'' sys1 = Inr (b1, s1)"
    and b1: "b1 \<longleftrightarrow> (\<exists>j. map_of (jobs_file sys1) ''job1'' = Some (to_dict j) \<and> state j = ''dead'')"
    and same1: "\<not> b1 \<longrightarrow> s1 = sys1"
    by (elim exE conjE) (rule that, assumption+)
  have "\<not> b1" unfolding b1 sys1_lookup using sys1_states(1) by (auto dest: to_dict_inj)
  with r1 same1 have c: "retry_job ''job1'' sys1 = Inr (False, sys1)" by simp
  from retry_job_dead_only [OF sys1_store sys1_wf, of "''nope''"] obtain b2 s2 where
    r2: "retry_job ''nope'' sys1 = Inr (b2, s2)"
    and b2: "b2 \<longleftrightarrow> (\<exists>j. map_of (jobs_file sys1) ''nope'' = Some (to_dict j) \<and> state j = ''dead'')"
    and same2: "\<not> b2 \<longrightarrow> s2 = sys1"
    by (elim exE conjE) (rule that, assumption+)
  have "\<not> b2" unfolding b2 sys1_lookup by simp
  with r2 same2 have d: "retry_job ''nope'' sys1 = Inr (False, sys1)" by simp
  from a c d show ?thesis by (intro conjI)
qed

subsection \<open>The worker\<close>

lemma state_of_to_dict: "map_of (to_dict j) ''state'' = Some (PyStr (state j))"
  by (simp add: to_dict_def)

lemma jobs_with_state_store:
  "list_all job_wf js \<Longrightarrow>
   jobs_with_state v (map snd (store_of js)) s = Inr (filter (\<lambda>j. state j = v) js, s)"
  by (induction js) (auto simp add: store_of_def state_of_to_dict from_dict_to_dict)

lemma get_jobs_by_state_store:
  "jobs_file s = store_of js \<Longrightarrow> list_all job_wf js \<Longrightarrow>
   get_jobs_by_state st s = Inr (filter (\<lambda>j. state j = JobState_value st) js, s)"
  by (simp add: get_jobs_by_state_def jobs_with_state_store)

lemma first_retryable_find:
  "Config_get ''backoff_base'' s = Some base \<Longrightarrow> first_retryable js s = Inr (find should_retry js)"
  by (induction js) (simp_all add: Let_def)

lemma get_next_job_store:
  assumes "jobs_file s = store_of js" and "list_all job_wf js"
  shows "get_next_job s =
     (case filter (\<lambda>j. state j = ''pending'') js of
        [] \<Rightarrow> Inr (find should_retry (filter (\<lambda>j. state j = ''failed'') js), s)
      | j # _ \<Rightarrow>
          Inr (Some (fst (update_state PROCESSING None None j s)),
               save_job (fst (update_state PROCESSING None None j s))
                 (s\<lparr>clock_reads := Suc (clock_reads s)\<rparr>)))"
proof -
  obtain base where b: "Config_get ''backoff_base'' s = Some base"
    using Config_get_backoff_base by blast
  show ?thesis
    by (simp add: get_next_job_def get_jobs_by_state_store [OF assms] first_retryable_find [OF b]
        split_def Let_def update_state_sys split: list.split)
qed

lemma job_step_refl: "job_step j j"
  by (simp add: job_step_def)

lemma job_step_trans: "job_step a b \<Longrightarrow> job_step b c \<Longrightarrow> job_step a c"
  by (auto simp add: job_step_def)

lemma job_step_update_state: "job_step j (fst (update_state st e outp j s))"
  by (cases e) (auto simp add: job_step_def update_state_fields truthy_def)

lemma job_step_increment_attempts: "job_step j (fst (increment_attempts j s))"
  by (simp add: job_step_def increment_attempts_fields)

lemma jobs_file_update_state: "jobs_file (snd (update_state st e outp j s)) = jobs_file s"
  by (simp add: update_state_sys)

lemma handle_job_failure_keeps:
  "job_step j (fst (fst (handle_job_failure j err s))) \<and>
   (job_wf j \<longrightarrow> job_wf (fst (fst (handle_job_failure j err s)))) \<and>
   jobs_file (snd (handle_job_failure j err s)) = jobs_file s \<and>
   config_file (snd (handle_job_failure j err s)) = config_file s"
proof (cases "int (attempts j) + 1 < max_retries j")
  case True
  obtain base where b: "Config_get ''backoff_base'' s = Some base"
    using Config_get_backoff_base by blast
  show ?thesis
    unfolding handle_job_failure_retry [OF True b]
    by (cases "sleep_exception (base ^ (attempts j + 1))")
       (auto simp add: Let_def job_step_def job_wf_def update_state_fields update_state_sys
        increment_attempts_fields increment_attempts_sys truthy_def)
next
  case False
  then have le: "max_retries j \<le> int (attempts j) + 1" by simp
  show ?thesis
    unfolding handle_job_failure_dead [OF le]
    by (auto simp add: job_step_def job_wf_def update_state_fields update_state_sys
        increment_attempts_fields increment_attempts_sys truthy_def)
qed

lemma handle_twice_keeps:
  "job_step j (fst (fst (handle_job_failure (fst (fst (handle_job_failure j err s))) err2
       (snd (handle_job_failure j err s))))) \<and>
   (job_wf j \<longrightarrow> job_wf (fst (fst (handle_job_failure (fst (fst (handle_job_failure j err s))) err2
       (snd (handle_job_failure j err s)))))) \<and>
   jobs_file (snd (handle_job_failure (fst (fst (handle_job_failure j err s))) err2
       (snd (handle_job_failure j err s)))) = jobs_file s"
proof -
  let ?j1 = "fst (fst (handle_job_failure j err s))"
  let ?s1 = "snd (handle_job_failure j err s)"
  note a = handle_job_failure_keeps [of j err s]
  note b = handle_job_failure_keeps [of ?j1 err2 ?s1]
  from a b have "job_step j (fst (fst (handle_job_failure ?j1 err2 ?s1)))"
    by (blast intro: job_step_trans)
  moreover from a b have "job_wf j \<longrightarrow> job_wf (fst (fst (handle_job_failure ?j1 err2 ?s1)))"
    by blast
  moreover from a b have "jobs_file (snd (handle_job_failure ?j1 err2 ?s1)) = jobs_file s"
    by simp
  ultimately show ?thesis by (intro conjI)
qed

lemma upsert_upsert: "job_id a = job_id b \<Longrightarrow> upsert b (upsert a js) = upsert b js"
  by (induction js) auto

lemma list_all2_job_step_refl: "list_all2 job_step js js"
  by (simp add: list_all2_refl job_step_refl)

lemma upsert_step:
  "j \<in> set js \<Longrightarrow> distinct (map job_id js) \<Longrightarrow> job_step j j' \<Longrightarrow>
   list_all2 job_step js (upsert j' js)"
proof (induction js)
  case Nil
  then show ?case by simp
next
  case (Cons x xs)
  show ?case
  proof (cases "job_id x = job_id j'")
    case True
    with Cons.prems have "x = j"
      by (auto simp add: job_step_def)
    with True Cons.prems(3) show ?thesis
      by (simp add: list_all2_job_step_refl)
  next
    case False
    with Cons.prems have "j \<in> set xs"
      by (auto simp add: job_step_def)
    with Cons False show ?thesis
      by (simp add: job_step_refl)
  qed
qed

lemma job_step_ids: "list_all2 job_step js js' \<Longrightarrow> map job_id js' = map job_id js"
  by (induction js js' rule: list_all2_induct) (simp_all add: job_step_def)

lemma process_job_timeout:
  "process_job TimeoutExpired j s =
     (fst (handle_job_failure j ''Job timed out'' s),
      save_job (fst (fst (handle_job_failure j ''Job timed out'' s)))
        (snd (handle_job_failure j ''Job timed out'' s)))"
  by (simp add: process_job_def split_def Let_def)

lemma process_job_exception:
  "process_job (RunException msg) j s =
     (fst (handle_job_failure j msg s),
      save_job (fst (fst (handle_job_failure j msg s))) (snd (handle_job_failure j msg s)))"
  by (simp add: process_job_def split_def Let_def)

lemma process_job_nonzero:
  assumes "rc \<noteq> 0"
  shows "process_job (CompletedProcess rc out err) j s =
     (let e = (if err \<noteq> [] then err else ''Command exited with code '' @ str_int rc);
          h1 = handle_job_failure j e s;
          h = (case snd (fst h1) of
                 None \<Rightarrow> h1
               | Some x \<Rightarrow> handle_job_failure (fst (fst h1)) (exc_str x) (snd h1))
      in (fst h, save_job (fst (fst h)) (snd h)))"
proof (cases "err = []")
  case True
  with assms show ?thesis
    by (cases "snd (fst (handle_job_failure j (''Command exited with code '' @ str_int rc) s))")
       (simp_all add: process_job_def split_def Let_def prod_eq_iff)
next
  case False
  with assms show ?thesis
    by (cases "snd (fst (handle_job_failure j err s))")
       (simp_all add: process_job_def split_def Let_def prod_eq_iff)
qed


lemma saved_keeps:
  assumes "job_step j (fst (fst h))"
      and "job_wf j \<longrightarrow> job_wf (fst (fst h))"
      and "jobs_file (snd h) = jobs_file s"
      and "p = (fst h, save_job (fst (fst h)) (snd h))"
  shows "job_step j (fst (fst p)) \<and> (job_wf j \<longrightarrow> job_wf (fst (fst p))) \<and>
         jobs_file (snd p) = AList.update (job_id j) (to_dict (fst (fst p))) (jobs_file s)"
  using assms by (simp add: save_job_def job_step_def)

lemma process_job_keeps:
  "job_step j (fst (fst (process_job r j s))) \<and>
   (job_wf j \<longrightarrow> job_wf (fst (fst (process_job r j s)))) \<and>
   jobs_file (snd (process_job r j s)) =
     AList.update (job_id j) (to_dict (fst (fst (process_job r j s)))) (jobs_file s)"
proof (cases r)
  case (CompletedProcess rc out err)
  show ?thesis
  proof (cases "rc = 0")
    case True
    let ?h = "((fst (update_state COMPLETED None (Some out) j s), None :: pyerror option),
               snd (update_state COMPLETED None (Some out) j s))"
    have "process_job r j s = (fst ?h, save_job (fst (fst ?h)) (snd ?h))"
      using CompletedProcess True by (simp add: process_job_success)
    then show ?thesis
      by (intro saved_keeps [where h = ?h])
         (simp_all add: job_step_update_state job_wf_update_state jobs_file_update_state)
  next
    case False
    define e where "e = (if err \<noteq> [] then err else ''Command exited with code '' @ str_int rc)"
    define h1 where "h1 = handle_job_failure j e s"
    define h where "h = (case snd (fst h1) of None \<Rightarrow> h1
       | Some x \<Rightarrow> handle_job_failure (fst (fst h1)) (exc_str x) (snd h1))"
    have p: "process_job r j s = (fst h, save_job (fst (fst h)) (snd h))"
      unfolding CompletedProcess h_def h1_def e_def
      by (simp only: process_job_nonzero [OF False] Let_def)
    have k: "job_step j (fst (fst h)) \<and> (job_wf j \<longrightarrow> job_wf (fst (fst h))) \<and>
             jobs_file (snd h) = jobs_file s"
    proof (cases "snd (fst h1)")
      case None
      then have "h = h1" by (simp add: h_def)
      then show ?thesis
        using handle_job_failure_keeps [of j e s] by (simp add: h1_def)
    next
      case (Some x)
      then have "h = handle_job_failure (fst (fst h1)) (exc_str x) (snd h1)" by (simp add: h_def)
      then show ?thesis
        using handle_twice_keeps [of j e s "exc_str x"] by (simp add: h1_def)
    qed
    from k p show ?thesis
      by (intro saved_keeps [where h = h]) simp_all
  qed
next
  case TimeoutExpired
  then have "process_job r j s =
     (fst (handle_job_failure j ''Job timed out'' s),
      save_job (fst (fst (handle_job_failure j ''Job timed out'' s)))
        (snd (handle_job_failure j ''Job timed out'' s)))"
    by (simp only: process_job_timeout)
  then show ?thesis
    using handle_job_failure_keeps [of j "''Job timed out''" s]
    by (intro saved_keeps [where h = "handle_job_failure j ''Job timed out'' s"]) simp_all
next
  case (RunException msg)
  then have "process_job r j s =
     (fst (handle_job_failure j msg s),
      save_job (fst (fst (handle_job_failure j msg s))) (snd (handle_job_failure j msg s)))"
    by (simp only: process_job_exception)
  then show ?thesis
    using handle_job_failure_keeps [of j msg s]
    by (intro saved_keeps [where h = "handle_job_failure j msg s"]) simp_all
qed

lemma find_in_set: "find P xs = Some x \<Longrightarrow> x \<in> set xs"
  by (induction xs) (auto split: if_splits)

lemma in_set_wf: "list_all job_wf js \<Longrightarrow> j \<in> set js \<Longrightarrow> job_wf j"
  by (simp add: list_all_iff)

lemma jobs_file_time_sleep: "jobs_file (snd (time_sleep secs s)) = jobs_file s"
  by (simp add: time_sleep_def)

lemma processed_store:
  assumes st: "jobs_file s = store_of js" and wf: "list_all job_wf js"
      and di: "distinct (map job_id js)" and mem: "j \<in> set js"
  shows "\<exists>js'. jobs_file (snd (process_job r j s)) = store_of js' \<and> list_all job_wf js' \<and>
               list_all2 job_step js js'"
proof -
  let ?j' = "fst (fst (process_job r j s))"
  note k = process_job_keeps [of j r s]
  from k have id: "job_id ?j' = job_id j" by (simp add: job_step_def)
  from k wf mem have wf': "job_wf ?j'" by (simp add: in_set_wf)
  from k have "jobs_file (snd (process_job r j s)) = store_of (upsert ?j' js)"
    by (simp add: st id [symmetric] store_of_upsert)
  moreover have "list_all job_wf (upsert ?j' js)"
    using wf' wf by (rule list_all_upsert)
  moreover from k have stp: "job_step j ?j'" by simp
  have "list_all2 job_step js (upsert ?j' js)"
    using mem di stp by (rule upsert_step)
  ultimately show ?thesis by blast
qed

lemma worker_iteration_keeps:
  assumes st: "jobs_file s = store_of js" and wf: "list_all job_wf js"
      and di: "distinct (map job_id js)"
  shows "\<exists>js'. jobs_file (snd (worker_iteration r s)) = store_of js' \<and> list_all job_wf js' \<and>
               list_all2 job_step js js'"
proof (cases "filter (\<lambda>j. state j = ''pending'') js")
  case Nil
  show ?thesis
  proof (cases "find should_retry (filter (\<lambda>j. state j = ''failed'') js)")
    case None
    with Nil have "get_next_job s = Inr (None, s)"
      by (simp add: get_next_job_store [OF st wf])
    then have "jobs_file (snd (worker_iteration r s)) = jobs_file s"
      by (simp add: worker_iteration_def jobs_file_time_sleep split: option.split)
    with st wf show ?thesis
      using list_all2_job_step_refl by auto
  next
    case (Some j)
    then have mem: "j \<in> set js"
      by (auto dest: find_in_set)
    from Nil Some have "get_next_job s = Inr (Some j, s)"
      by (simp add: get_next_job_store [OF st wf])
    then have "snd (worker_iteration r s) = snd (process_job r j s)"
      by (simp add: worker_iteration_def split_def Let_def)
    with processed_store [OF st wf di mem, of r] show ?thesis by simp
  qed
next
  case (Cons j rest)
  then have "j \<in> set (filter (\<lambda>j. state j = ''pending'') js)" by simp
  then have mem: "j \<in> set js" by simp
  let ?j1 = "fst (update_state PROCESSING None None j s)"
  let ?s1 = "save_job ?j1 (s\<lparr>clock_reads := Suc (clock_reads s)\<rparr>)"
  have step1: "job_step j ?j1" by (rule job_step_update_state)
  then have id1: "job_id ?j1 = job_id j" by (simp add: job_step_def)
  have wf1j: "job_wf ?j1" using wf mem by (intro job_wf_update_state) (rule in_set_wf)
  have st1: "jobs_file ?s1 = store_of (upsert ?j1 js)"
    by (rule save_job_store) (simp add: st)
  have wf1: "list_all job_wf (upsert ?j1 js)" using wf1j wf by (rule list_all_upsert)
  have a1: "list_all2 job_step js (upsert ?j1 js)"
    using mem di step1 by (rule upsert_step)
  then have di1: "distinct (map job_id (upsert ?j1 js))"
    using di by (simp add: job_step_ids)
  have mem1: "?j1 \<in> set (upsert ?j1 js)"
    using find_upsert [of "job_id ?j1" ?j1 js] by (auto dest: find_in_set)
  from Cons have "get_next_job s = Inr (Some ?j1, ?s1)"
    by (simp add: get_next_job_store [OF st wf])
  then have "snd (worker_iteration r s) = snd (process_job r ?j1 ?s1)"
    by (simp add: worker_iteration_def split_def Let_def)
  with processed_store [OF st1 wf1 di1 mem1, of r] obtain js' where
    "jobs_file (snd (worker_iteration r s)) = store_of js'" "list_all job_wf js'"
    "list_all2 job_step (upsert ?j1 js) js'"
    by auto
  moreover from a1 this(3) have "list_all2 job_step js js'"
    by (rule list_all2_trans [rotated]) (rule job_step_trans)
  ultimately show ?thesis by blast
qed

lemma start_keeps:
  assumes "jobs_file s = store_of js" and "list_all job_wf js" and "distinct (map job_id js)"
  shows "\<exists>js'. jobs_file (snd (start rs s)) = store_of js' \<and> list_all job_wf js' \<and>
               list_all2 job_step js js'"
  using assms
proof (induction rs arbitrary: s js)
  case Nil
  then show ?case using list_all2_job_step_refl by auto
next
  case (Cons r rs)
  from worker_iteration_keeps [OF Cons.prems, of r] obtain js1 where
    a: "jobs_file (snd (worker_iteration r s)) = store_of js1" "list_all job_wf js1"
       "list_all2 job_step js js1"
    by blast
  from a(3) Cons.prems(3) have d1: "distinct (map job_id js1)"
    by (simp add: job_step_ids)
  show ?case
  proof (cases "fst (worker_iteration r s)")
    case None
    then have "start (r # rs) s = start rs (snd (worker_iteration r s))"
      by (simp add: split_def)
    moreover from Cons.IH [OF a(1) a(2) d1] obtain js' where
      "jobs_file (snd (start rs (snd (worker_iteration r s)))) = store_of js'"
      "list_all job_wf js'" "list_all2 job_step js1 js'"
      by blast
    moreover from a(3) this(3) have "list_all2 job_step js js'"
      by (rule list_all2_trans [rotated]) (rule job_step_trans)
    ultimately show ?thesis by auto
  next
    case (Some e)
    then have "snd (start (r # rs) s) = snd (worker_iteration r s)"
      by (simp add: split_def)
    with a show ?thesis by auto
  qed
qed


lemma retry_job_true:
  assumes "jobs_file s = store_of js" and "list_all job_wf js"
      and "retry_job jid s = Inr (True, s')"
  shows "\<exists>j. map_of (jobs_file s) jid = Some (to_dict j) \<and> job_id j = jid \<and>
             s' = save_job (j\<lparr>attempts := 0, state := ''pending'',
                     updated_at := utcnow_isoformat s (clock_reads s) @ ''Z''\<rparr>)
                   (s\<lparr>clock_reads := Suc (clock_reads s)\<rparr>)"
proof (cases "find (\<lambda>x. job_id x = jid) js")
  case None
  with assms(3) show ?thesis
    unfolding retry_job_store [OF assms(1,2)] by simp
next
  case (Some j)
  then have "map_of (jobs_file s) jid = Some (to_dict j)"
    by (simp add: assms(1) map_of_store_of)
  moreover have "job_id j = jid" using find_holds [OF Some] .
  ultimately have "map_of (jobs_file s) jid = Some (to_dict j)" "job_id j = jid" by simp_all
  with assms(3) Some show ?thesis
    unfolding retry_job_store [OF assms(1,2)]
    by (auto simp add: update_state_plain split: if_splits)
qed

lemma handle_job_failure_fields:
  "attempts (fst (fst (handle_job_failure j err s))) = attempts j + 1 \<and>
   last_error (fst (fst (handle_job_failure j err s))) =
     (if err = [] then last_error j else Some err)"
proof (cases "int (attempts j) + 1 < max_retries j")
  case True
  obtain base where b: "Config_get ''backoff_base'' s = Some base"
    using Config_get_backoff_base by blast
  show ?thesis
    unfolding handle_job_failure_retry [OF True b]
    by (cases "sleep_exception (base ^ (attempts j + 1))")
       (simp_all add: Let_def update_state_fields increment_attempts_fields truthy_def)
next
  case False
  then have le: "max_retries j \<le> int (attempts j) + 1" by simp
  show ?thesis
    unfolding handle_job_failure_dead [OF le]
    by (simp add: update_state_fields increment_attempts_fields truthy_def)
qed

lemma sys1_distinct: "distinct (map job_id [new_job ''job1'' 3, dead_job ''job2''])"
  by (simp add: new_job_def dead_job_def)








text \<open>
  C7. No automatic transition clears \<open>last_error\<close>. \<open>update_state\<close> without a new error
  (absent or empty) keeps it, and never turns a stored message into \<open>None\<close>;
  \<open>increment_attempts\<close> keeps it. The \<open>pending\<close> state that follows \<open>failed\<close> in the
  failure handler carries the same message, and the handler ends with the new message,
  or with the old one when the new one is empty. Completing a job keeps it, whatever
  \<^verbatim>\<open>subprocess.run\<close> did a message stays a message, a manual retry of a dead job
  leaves the stored \<^verbatim>\<open>last_error\<close> as it was, and after any number of passes of the
  worker's loop every job that had a message still has one.
\<close>

theorem last_error_never_cleared:
  assumes st: "jobs_file s = store_of js" and wf: "list_all job_wf js"
      and di: "distinct (map job_id js)"
  shows "(\<not> truthy e \<longrightarrow> last_error (fst (update_state stt e outp j s)) = last_error j) \<and>
         (last_error j \<noteq> None \<longrightarrow> last_error (fst (update_state stt e outp j s)) \<noteq> None) \<and>
         last_error (fst (increment_attempts j s)) = last_error j \<and>
         last_error (fst (update_state PENDING (Some err) None
             (fst (update_state FAILED (Some err) None j s)) s2)) =
           last_error (fst (update_state FAILED (Some err) None j s)) \<and>
         last_error (fst (fst (handle_job_failure j err s))) =
           (if err = [] then last_error j else Some err) \<and>
         last_error (fst (fst (process_job (CompletedProcess 0 out err2) j s))) = last_error j \<and>
         (last_error j \<noteq> None \<longrightarrow> last_error (fst (fst (process_job r j s))) \<noteq> None) \<and>
         (\<forall>jid s'. retry_job jid s = Inr (True, s') \<longrightarrow>
            stored_field jid ''last_error'' s' = stored_field jid ''last_error'' s) \<and>
         (\<exists>js'. jobs_file (snd (start rs s)) = store_of js' \<and>
            list_all2 (\<lambda>a b. job_id b = job_id a \<and>
               (last_error a \<noteq> None \<longrightarrow> last_error b \<noteq> None)) js js')"
proof -
  have a: "\<not> truthy e \<longrightarrow> last_error (fst (update_state stt e outp j s)) = last_error j"
    by (simp add: update_state_fields)
  have b: "last_error j \<noteq> None \<longrightarrow> last_error (fst (update_state stt e outp j s)) \<noteq> None"
    by (cases e) (auto simp add: update_state_fields truthy_def)
  have c: "last_error (fst (increment_attempts j s)) = last_error j"
    by (simp add: increment_attempts_fields)
  have d: "last_error (fst (update_state PENDING (Some err) None
             (fst (update_state FAILED (Some err) None j s)) s2)) =
           last_error (fst (update_state FAILED (Some err) None j s))"
    by (simp add: update_state_fields)
  have f: "last_error (fst (fst (handle_job_failure j err s))) =
           (if err = [] then last_error j else Some err)"
    using handle_job_failure_fields [of j err s] by simp
  have g: "last_error (fst (fst (process_job (CompletedProcess 0 out err2) j s))) = last_error j"
    by (simp add: process_job_success update_state_fields truthy_def)
  have h: "last_error j \<noteq> None \<longrightarrow> last_error (fst (fst (process_job r j s))) \<noteq> None"
    using process_job_keeps [of j r s] by (auto simp add: job_step_def)
  have i: "\<forall>jid s'. retry_job jid s = Inr (True, s') \<longrightarrow>
            stored_field jid ''last_error'' s' = stored_field jid ''last_error'' s"
  proof (intro allI impI)
    fix jid s' assume "retry_job jid s = Inr (True, s')"
    from retry_job_true [OF st wf this] obtain j0 where
      "map_of (jobs_file s) jid = Some (to_dict j0)" "job_id j0 = jid"
      "s' = save_job (j0\<lparr>attempts := 0, state := ''pending'',
                     updated_at := utcnow_isoformat s (clock_reads s) @ ''Z''\<rparr>)
                   (s\<lparr>clock_reads := Suc (clock_reads s)\<rparr>)"
      by blast
    then show "stored_field jid ''last_error'' s' = stored_field jid ''last_error'' s"
      by (simp add: stored_field_def jobs_file_save_job to_dict_def)
  qed
  from start_keeps [OF st wf di, of rs] obtain js' where
    k: "jobs_file (snd (start rs s)) = store_of js'" "list_all2 job_step js js'"
    by blast
  from k(2) have "list_all2 (\<lambda>a b. job_id b = job_id a \<and>
               (last_error a \<noteq> None \<longrightarrow> last_error b \<noteq> None)) js js'"
    by (rule list_all2_mono) (auto simp add: job_step_def)
  with k(1) have l: "\<exists>js'. jobs_file (snd (start rs s)) = store_of js' \<and>
            list_all2 (\<lambda>a b. job_id b = job_id a \<and>
               (last_error a \<noteq> None \<longrightarrow> last_error b \<noteq> None)) js js'"
    by blast
  from a b c d f g h i l show ?thesis by (intro conjI)
qed

theorem last_error_never_cleared_witness:
  "distinct (map job_id [new_job ''job1'' 3, dead_job ''job2'']) \<and>
   last_error (fst (fst (process_job (CompletedProcess 0 ''ok'' []) (dead_job ''job2'') sys1))) =
     Some ''boom'' \<and>
   (\<exists>js'. jobs_file (snd (start [TimeoutExpired] sys1)) = store_of js' \<and>
      list_all2 (\<lambda>a b. job_id b = job_id a \<and> (last_error a \<noteq> None \<longrightarrow> last_error b \<noteq> None))
        [new_job ''job1'' 3, dead_job ''job2''] js')"
proof -
  note t = last_error_never_cleared
    [where j = "dead_job ''job2''" and out = "''ok''" and ?err2.0 = "[]" and rs = "[TimeoutExpired]",
     OF sys1_store sys1_wf sys1_distinct]
  have a: "last_error (fst (fst (process_job (CompletedProcess 0 ''ok'' [])
      (dead_job ''job2'') sys1))) = last_error (dead_job ''job2'')"
    by (rule t [THEN conjunct2, THEN conjunct2, THEN conjunct2, THEN conjunct2, THEN conjunct2, THEN conjunct1])
  have b: "\<exists>js'. jobs_file (snd (start [TimeoutExpired] sys1)) = store_of js' \<and>
      list_all2 (\<lambda>a b. job_id b = job_id a \<and> (last_error a \<noteq> None \<longrightarrow> last_error b \<noteq> None))
        [new_job ''job1'' 3, dead_job ''job2''] js'"
    by (rule t [THEN conjunct2, THEN conjunct2, THEN conjunct2, THEN conjunct2, THEN conjunct2, THEN conjunct2, THEN conjunct2, THEN conjunct2])
  have c: "last_error (dead_job ''job2'') = Some ''boom''" by (simp add: dead_job_def)
  from a b c sys1_distinct show ?thesis by simp
qed

text \<open>
  A \<open>failed\<close> job does get stored: with a negative backoff base, a job that times out is
  set to \<open>failed\<close>, \<^verbatim>\<open>time.sleep\<close> raises inside the \<^verbatim>\<open>except\<close> clause, and the
  \<^verbatim>\<open>finally\<close> clause saves the job as it is. The next worker completes it directly.
\<close>

lemma failed_state_is_stored:
  "fst (start [TimeoutExpired] (snd (projr (enqueue ''sleep 400'' (Some ''job1'') None sys_neg)))) =
     Some (ValueError ''sleep length must be non-negative'') \<and>
   stored_field ''job1'' ''state''
     (snd (start [TimeoutExpired]
        (snd (projr (enqueue ''sleep 400'' (Some ''job1'') None sys_neg))))) =
     Some (PyStr ''failed'') \<and>
   stored_field ''job1'' ''attempts''
     (snd (start [TimeoutExpired]
        (snd (projr (enqueue ''sleep 400'' (Some ''job1'') None sys_neg))))) =
     Some (PyInt 1) \<and>
   stored_field ''job1'' ''state''
     (snd (start [CompletedProcess 0 ''ok'' []]
        (snd (start [TimeoutExpired]
           (snd (projr (enqueue ''sleep 400'' (Some ''job1'') None sys_neg))))))) =
     Some (PyStr ''completed'')"
  by code_simp

text \<open>The pending branch of \<open>get_next_job\<close> writes the claimed job as \<open>processing\<close>.\<close>

lemma pending_job_is_marked_processing:
  "stored_field ''job1'' ''state'' (snd (projr (get_next_job sys1))) = Some (PyStr ''processing'')"
  by code_simp

text \<open>
  C5. The claim that a job becomes \<open>completed\<close> only from \<open>processing\<close> fails on the code.
  With no pending job, \<open>get_next_job\<close> returns the first retryable \<open>failed\<close> job as it is:
  unlike the pending branch (\<open>pending_job_is_marked_processing\<close>) it neither sets the
  state to \<open>processing\<close> nor writes the store. When the command then succeeds the stored
  state goes from \<open>failed\<close> to \<open>completed\<close>.
\<close>

theorem failed_job_completed_without_processing:
  "stored_field ''job1'' ''state'' sys2 = Some (PyStr ''failed'') \<and>
   map_sum id fst (get_next_job sys2) = Inr (Some (failed_job ''job1'')) \<and>
   state (failed_job ''job1'') = ''failed'' \<and>
   jobs_file (snd (projr (get_next_job sys2))) = jobs_file sys2 \<and>
   fst (worker_iteration (CompletedProcess 0 ''ok'' []) sys2) = None \<and>
   stored_field ''job1'' ''state'' (snd (worker_iteration (CompletedProcess 0 ''ok'' []) sys2)) =
     Some (PyStr ''completed'')"
  by code_simp

end
